theory Spec2Isabelle
  imports Main "HOL-Library.Word"
begin

section \<open>The Linux port of the MicroTBX critical section (port/LINUX/tbxport.c)\<close>

text \<open>
  The file holds three static variables and two functions,
  \<open>TbxPortInterruptsDisable\<close> and \<open>TbxPortInterruptsRestore\<close>. The model keeps the
  three variables in a record, gives every statement of the two functions a program
  point named after its source line, and executes a call by stepping from the entry
  point of the function to its return.
\<close>

subsection \<open>Constants and types of microtbx.h\<close>

text \<open>
  Modelled from the spec: the macros \<open>TBX_TRUE\<close> and \<open>TBX_FALSE\<close> of microtbx.h are
  not part of the sources at hand; the spec calls the two flags booleans, stored here
  in a \<open>uint8_t\<close> as 1 and 0.
\<close>

definition TBX_TRUE :: "8 word" where
  "TBX_TRUE = 1"

definition TBX_FALSE :: "8 word" where
  "TBX_FALSE = 0"

text \<open>
  Modelled from the spec: the declaration of \<open>tTbxPortCpuSR\<close> (tbxport.h) is
  missing; the spec describes it as an opaque token. It is taken as an unsigned 32-bit
  value.
\<close>

type_synonym tTbxPortCpuSR = "32 word"

subsection \<open>The POSIX mutex\<close>

text \<open>
  A thread is named by a number. A default mutex (attribute \<open>NULL\<close>) is either not
  yet initialised, unlocked, or locked by one thread.
\<close>

type_synonym tid = nat

datatype pthread_mutex_t = MtxUninitialized | MtxUnlocked | MtxLocked tid

text \<open>
  The ways in which a call does not come back with the function's work done:
  \<open>AssertionTriggered\<close>: a \<open>TBX_ASSERT\<close> failed and control went to the assertion
  handler; \<open>Blocked\<close>: \<open>pthread_mutex_lock\<close> waits for a mutex that is held (by another
  thread, or by the caller itself, which then never wakes up);
  \<open>UndefinedBehaviour\<close>: a use of the mutex for which POSIX defines no behaviour
  (initialising it twice, locking or unlocking it before initialisation, unlocking a
  mutex the caller does not hold).
\<close>

datatype error = AssertionTriggered | Blocked | UndefinedBehaviour

definition pthread_mutex_init :: "pthread_mutex_t \<Rightarrow> error + pthread_mutex_t" where
  "pthread_mutex_init m =
     (case m of
        MtxUninitialized \<Rightarrow> Inr MtxUnlocked
      | MtxUnlocked \<Rightarrow> Inl UndefinedBehaviour
      | MtxLocked owner \<Rightarrow> Inl UndefinedBehaviour)"

definition pthread_mutex_lock :: "tid \<Rightarrow> pthread_mutex_t \<Rightarrow> error + pthread_mutex_t" where
  "pthread_mutex_lock t m =
     (case m of
        MtxUninitialized \<Rightarrow> Inl UndefinedBehaviour
      | MtxUnlocked \<Rightarrow> Inr (MtxLocked t)
      | MtxLocked owner \<Rightarrow> Inl Blocked)"

definition pthread_mutex_unlock :: "tid \<Rightarrow> pthread_mutex_t \<Rightarrow> error + pthread_mutex_t" where
  "pthread_mutex_unlock t m =
     (case m of
        MtxUninitialized \<Rightarrow> Inl UndefinedBehaviour
      | MtxUnlocked \<Rightarrow> Inl UndefinedBehaviour
      | MtxLocked owner \<Rightarrow> (if owner = t then Inr MtxUnlocked else Inl UndefinedBehaviour))"

subsection \<open>The static variables\<close>

record tbxport =
  criticalSectionInitialized :: "8 word"
  interruptsDisabled :: "8 word"
  mtxCritSect :: pthread_mutex_t

text \<open>The values the variables have when the program starts.\<close>

definition initial_state :: tbxport where
  "initial_state =
     \<lparr>criticalSectionInitialized = TBX_FALSE, interruptsDisabled = TBX_FALSE,
      mtxCritSect = MtxUninitialized\<rparr>"

subsection \<open>The statements of the two functions\<close>

text \<open>
  A program point \<open>Ln\<close> stands before the statement on source line \<open>n\<close>:
  \<open>L72\<close> and \<open>L81\<close> are the two tests of \<open>TbxPortInterruptsDisable\<close>, \<open>L75\<close> the call
  of \<open>pthread_mutex_init\<close>, \<open>L77\<close> and \<open>L83\<close> the two assignments, \<open>L84\<close> the call of
  \<open>pthread_mutex_lock\<close>, \<open>L88\<close> the return; \<open>L110\<close> is the assertion of
  \<open>TbxPortInterruptsRestore\<close>, \<open>L113\<close> its test, \<open>L115\<close> the call of
  \<open>pthread_mutex_unlock\<close>, \<open>L116\<close> the assignment. \<open>Returned\<close> is the point after the
  function has returned.

  The first argument of \<open>step\<close> says whether assertions are compiled in
  (\<open>TBX_CONF_ASSERTIONS_ENABLE\<close>; the macro \<open>TBX_ASSERT\<close> itself is in microtbx.h),
  the second is the calling thread. The results of the three pthread calls are cast to
  void in the source, so a step only keeps the new state of the mutex.
\<close>

datatype pc = L72 | L75 | L77 | L81 | L83 | L84 | L88 | L110 | L113 | L115 | L116 | Returned

fun step :: "bool \<Rightarrow> tid \<Rightarrow> pc \<Rightarrow> tbxport \<Rightarrow> error + (pc \<times> tbxport)" where
  "step a t L72 s =
     Inr (if criticalSectionInitialized s = TBX_FALSE then L75 else L81, s)"
| "step a t L75 s =
     (case pthread_mutex_init (mtxCritSect s) of
        Inl e \<Rightarrow> Inl e
      | Inr m \<Rightarrow> Inr (L77, s\<lparr>mtxCritSect := m\<rparr>))"
| "step a t L77 s = Inr (L81, s\<lparr>criticalSectionInitialized := TBX_TRUE\<rparr>)"
| "step a t L81 s =
     Inr (if interruptsDisabled s = TBX_FALSE then L83 else L88, s)"
| "step a t L83 s = Inr (L84, s\<lparr>interruptsDisabled := TBX_TRUE\<rparr>)"
| "step a t L84 s =
     (case pthread_mutex_lock t (mtxCritSect s) of
        Inl e \<Rightarrow> Inl e
      | Inr m \<Rightarrow> Inr (L88, s\<lparr>mtxCritSect := m\<rparr>))"
| "step a t L88 s = Inr (Returned, s)"
| "step a t L110 s =
     (if a \<and> \<not> (criticalSectionInitialized s = TBX_TRUE) then Inl AssertionTriggered
      else Inr (L113, s))"
| "step a t L113 s =
     Inr (if interruptsDisabled s = TBX_TRUE then L115 else Returned, s)"
| "step a t L115 s =
     (case pthread_mutex_unlock t (mtxCritSect s) of
        Inl e \<Rightarrow> Inl e
      | Inr m \<Rightarrow> Inr (L116, s\<lparr>mtxCritSect := m\<rparr>))"
| "step a t L116 s = Inr (Returned, s\<lparr>interruptsDisabled := TBX_FALSE\<rparr>)"
| "step a t Returned s = Inr (Returned, s)"

text \<open>The position of a program point in the source; every step moves forward.\<close>

fun rank :: "pc \<Rightarrow> nat" where
  "rank L72 = 0"
| "rank L75 = 1"
| "rank L77 = 2"
| "rank L81 = 3"
| "rank L83 = 4"
| "rank L84 = 5"
| "rank L88 = 6"
| "rank L110 = 7"
| "rank L113 = 8"
| "rank L115 = 9"
| "rank L116 = 10"
| "rank Returned = 11"

text \<open>Running a function body from a program point to its return.\<close>

function exec :: "bool \<Rightarrow> tid \<Rightarrow> pc \<Rightarrow> tbxport \<Rightarrow> error + tbxport" where
  "exec a t p s =
     (if p = Returned then Inr s
      else case step a t p s of
             Inl e \<Rightarrow> Inl e
           | Inr (p', s') \<Rightarrow> exec a t p' s')"
  by pat_completeness auto
termination
proof (relation "measure (\<lambda>(a, t, p, s). 11 - rank p)")
  fix a :: bool and t :: tid and p p' :: pc and s s' :: tbxport and c
  assume "p \<noteq> Returned" and "step a t p s = Inr c" and "(p', s') = c"
  then have "rank p < rank p'" and "rank p' \<le> 11"
    by (cases p; auto split: sum.splits if_splits)+
  then show "((a, t, p', s'), (a, t, p, s)) \<in> measure (\<lambda>(a, t, p, s). 11 - rank p)"
    by simp
qed simp

text \<open>
  The configurations a run goes through, in order: each program point reached, with
  the values of the variables on reaching it.
\<close>

function points :: "bool \<Rightarrow> tid \<Rightarrow> pc \<Rightarrow> tbxport \<Rightarrow> (pc \<times> tbxport) list" where
  "points a t p s =
     (p, s) # (if p = Returned then []
               else case step a t p s of
                      Inl e \<Rightarrow> []
                    | Inr (p', s') \<Rightarrow> points a t p' s')"
  by pat_completeness auto
termination
proof (relation "measure (\<lambda>(a, t, p, s). 11 - rank p)")
  fix a :: bool and t :: tid and p p' :: pc and s s' :: tbxport and c
  assume "p \<noteq> Returned" and "step a t p s = Inr c" and "(p', s') = c"
  then have "rank p < rank p'" and "rank p' \<le> 11"
    by (cases p; auto split: sum.splits if_splits)+
  then show "((a, t, p', s'), (a, t, p, s)) \<in> measure (\<lambda>(a, t, p, s). 11 - rank p)"
    by simp
qed simp

declare exec.simps [simp del] points.simps [simp del]

subsection \<open>The two functions\<close>

definition TbxPortInterruptsDisable ::
  "bool \<Rightarrow> tid \<Rightarrow> tbxport \<Rightarrow> error + (tTbxPortCpuSR \<times> tbxport)" where
  "TbxPortInterruptsDisable a t s =
     (let result = 0
      in case exec a t L72 s of
           Inl e \<Rightarrow> Inl e
         | Inr s' \<Rightarrow> Inr (result, s'))"

text \<open>The parameter is not used (\<open>TBX_UNUSED_ARG\<close>); the function returns nothing.\<close>

definition TbxPortInterruptsRestore ::
  "bool \<Rightarrow> tid \<Rightarrow> tTbxPortCpuSR \<Rightarrow> tbxport \<Rightarrow> error + tbxport" where
  "TbxPortInterruptsRestore a t prev_cpu_sr s = exec a t L110 s"

subsection \<open>Sequences of calls by one thread\<close>

text \<open>
  A thread that uses the critical section makes a sequence of calls of the two
  functions. \<open>run_calls\<close> performs them in order, from a given state of the variables,
  and stops at the first call that does not return.
\<close>

datatype call = Disable | Restore tTbxPortCpuSR

fun do_call :: "bool \<Rightarrow> tid \<Rightarrow> call \<Rightarrow> tbxport \<Rightarrow> error + tbxport" where
  "do_call a t Disable s =
     (case TbxPortInterruptsDisable a t s of
        Inl e \<Rightarrow> Inl e
      | Inr (sr, s') \<Rightarrow> Inr s')"
| "do_call a t (Restore sr) s = TbxPortInterruptsRestore a t sr s"

fun run_calls :: "bool \<Rightarrow> tid \<Rightarrow> call list \<Rightarrow> tbxport \<Rightarrow> error + tbxport" where
  "run_calls a t [] s = Inr s"
| "run_calls a t (c # cs) s =
     (case do_call a t c s of
        Inl e \<Rightarrow> Inl e
      | Inr s' \<Rightarrow> run_calls a t cs s')"

text \<open>
  The three states of the spec's state machine, as values of the variables:
  \<open>Uninitialized\<close> is \<open>initial_state\<close>; \<open>Unlocked\<close> and \<open>Locked\<close> (by thread \<open>t\<close>) are
  the two values below.
\<close>

definition unlocked_state :: tbxport where
  "unlocked_state =
     \<lparr>criticalSectionInitialized = TBX_TRUE, interruptsDisabled = TBX_FALSE,
      mtxCritSect = MtxUnlocked\<rparr>"

definition locked_state :: "tid \<Rightarrow> tbxport" where
  "locked_state t =
     \<lparr>criticalSectionInitialized = TBX_TRUE, interruptsDisabled = TBX_TRUE,
      mtxCritSect = MtxLocked t\<rparr>"

subsection \<open>Threads incrementing a shared counter\<close>

text \<open>
  The scenario of the spec's property P1: every thread repeats
  \<^verbatim>\<open>sr = TbxPortInterruptsDisable(); tmp = counter; counter = tmp + 1;
  TbxPortInterruptsRestore(sr);\<close>
  A thread is what it still has to do and its two local variables; the system is the
  static variables of tbxport.c, the shared counter and the threads. A schedule is the
  list of the threads that take the next action, one after the other; a call of one of
  the two functions is taken as one action, so a schedule only describes runs in which
  no thread is preempted inside a call.
\<close>

datatype action = CallDisable | LoadCounter | StoreCounter | CallRestore

record thread =
  todo :: "action list"
  sr :: tTbxPortCpuSR
  tmp :: nat

record system =
  port :: tbxport
  counter :: nat
  threads :: "tid \<Rightarrow> thread"

definition worker :: "nat \<Rightarrow> action list" where
  "worker n = concat (replicate n [CallDisable, LoadCounter, StoreCounter, CallRestore])"

definition start :: "nat \<Rightarrow> system" where
  "start n =
     \<lparr>port = initial_state, counter = 0,
      threads = (\<lambda>t. \<lparr>todo = worker n, sr = 0, tmp = 0\<rparr>)\<rparr>"

text \<open>
  A thread is inside its protected region from the return of its call of
  \<open>TbxPortInterruptsDisable\<close> until its call of \<open>TbxPortInterruptsRestore\<close>.
\<close>

definition in_region :: "thread \<Rightarrow> bool" where
  "in_region th = (case todo th of [] \<Rightarrow> False | x # rest \<Rightarrow> x \<noteq> CallDisable)"

definition act :: "bool \<Rightarrow> tid \<Rightarrow> system \<Rightarrow> error + system" where
  "act a t sys =
     (let th = threads sys t
      in case todo th of
           [] \<Rightarrow> Inr sys
         | CallDisable # rest \<Rightarrow>
             (case TbxPortInterruptsDisable a t (port sys) of
                Inl e \<Rightarrow> Inl e
              | Inr (r, p) \<Rightarrow>
                  Inr (sys\<lparr>port := p, threads := (threads sys)(t := th\<lparr>todo := rest, sr := r\<rparr>)\<rparr>))
         | LoadCounter # rest \<Rightarrow>
             Inr (sys\<lparr>threads := (threads sys)(t := th\<lparr>todo := rest, tmp := counter sys\<rparr>)\<rparr>)
         | StoreCounter # rest \<Rightarrow>
             Inr (sys\<lparr>counter := tmp th + 1, threads := (threads sys)(t := th\<lparr>todo := rest\<rparr>)\<rparr>)
         | CallRestore # rest \<Rightarrow>
             (case TbxPortInterruptsRestore a t (sr th) (port sys) of
                Inl e \<Rightarrow> Inl e
              | Inr p \<Rightarrow>
                  Inr (sys\<lparr>port := p, threads := (threads sys)(t := th\<lparr>todo := rest\<rparr>)\<rparr>)))"

fun run :: "bool \<Rightarrow> tid list \<Rightarrow> system \<Rightarrow> error + system" where
  "run a [] sys = Inr sys"
| "run a (t # ts) sys =
     (case act a t sys of
        Inl e \<Rightarrow> Inl e
      | Inr sys' \<Rightarrow> run a ts sys')"

subsection \<open>Threads interleaved statement by statement\<close>

text \<open>
  Threads share the three static variables and are preempted between any two
  statements of the two functions. A schedule is again the list of the threads that
  take the next step.
\<close>

text \<open>
  Between two calls a thread stands at \<open>Returned\<close>; inside a call it stands at the
  program point of its next statement. \<open>pending\<close> are the calls it has still to make.
\<close>

record activity =
  point :: pc
  pending :: "call list"

record machine =
  vars :: tbxport
  thr :: "tid \<Rightarrow> activity"

text \<open>The first program point of each function.\<close>

fun entry :: "call \<Rightarrow> pc" where
  "entry Disable = L72"
| "entry (Restore k) = L110"

text \<open>
  The thread \<open>t\<close> is given the processor for one step: between calls it enters its
  next call, inside a call it executes the statement at its program point. A thread
  whose \<open>pthread_mutex_lock\<close> would wait cannot take the step (\<open>Blocked\<close>); it is
  scheduled again once the mutex is free.
\<close>

definition sched :: "bool \<Rightarrow> tid \<Rightarrow> machine \<Rightarrow> error + machine" where
  "sched a t m =
     (let th = thr m t
      in if point th = Returned
         then (case pending th of
                 [] \<Rightarrow> Inr m
               | c # cs \<Rightarrow> Inr (m\<lparr>thr := (thr m)(t := \<lparr>point = entry c, pending = cs\<rparr>)\<rparr>))
         else (case step a t (point th) (vars m) of
                 Inl e \<Rightarrow> Inl e
               | Inr (p, s) \<Rightarrow> Inr (m\<lparr>vars := s, thr := (thr m)(t := th\<lparr>point := p\<rparr>)\<rparr>)))"

fun interleave :: "bool \<Rightarrow> tid list \<Rightarrow> machine \<Rightarrow> error + machine" where
  "interleave a [] m = Inr m"
| "interleave a (t # ts) m =
     (case sched a t m of
        Inl e \<Rightarrow> Inl e
      | Inr m' \<Rightarrow> interleave a ts m')"

text \<open>The program starts with every thread outside a call.\<close>

definition boot :: "(tid \<Rightarrow> call list) \<Rightarrow> machine" where
  "boot prog = \<lparr>vars = initial_state, thr = (\<lambda>t. \<lparr>point = Returned, pending = prog t\<rparr>)\<rparr>"

text \<open>Thread 1 calls Disable and then Restore, thread 2 calls Disable.\<close>

definition two_callers :: "tid \<Rightarrow> call list" where
  "two_callers t = (if t = 1 then [Disable, Restore 0] else if t = 2 then [Disable] else [])"

section \<open>Properties\<close>

subsection \<open>What a run from each program point computes\<close>

lemma exec_Returned: "exec a t Returned s = Inr s"
  by (simp add: exec.simps)

lemma exec_L88: "exec a t L88 s = Inr s"
  by (simp add: exec.simps [of a t L88] exec_Returned)

lemma exec_L84:
  "exec a t L84 s =
     (case pthread_mutex_lock t (mtxCritSect s) of
        Inl e \<Rightarrow> Inl e
      | Inr m \<Rightarrow> Inr (s\<lparr>mtxCritSect := m\<rparr>))"
  by (simp add: exec.simps [of a t L84] exec_L88 split: sum.splits)

lemma exec_L83:
  "exec a t L83 s = exec a t L84 (s\<lparr>interruptsDisabled := TBX_TRUE\<rparr>)"
  by (simp add: exec.simps [of a t L83])

lemma exec_L81:
  "exec a t L81 s =
     (if interruptsDisabled s = TBX_FALSE
      then case pthread_mutex_lock t (mtxCritSect s) of
             Inl e \<Rightarrow> Inl e
           | Inr m \<Rightarrow> Inr (s\<lparr>interruptsDisabled := TBX_TRUE, mtxCritSect := m\<rparr>)
      else Inr s)"
  by (simp add: exec.simps [of a t L81] exec_L83 exec_L84 exec_L88 split: sum.splits)

lemma exec_L77:
  "exec a t L77 s = exec a t L81 (s\<lparr>criticalSectionInitialized := TBX_TRUE\<rparr>)"
  by (simp add: exec.simps [of a t L77])

lemma exec_L75:
  "exec a t L75 s =
     (case pthread_mutex_init (mtxCritSect s) of
        Inl e \<Rightarrow> Inl e
      | Inr m \<Rightarrow> exec a t L81 (s\<lparr>mtxCritSect := m, criticalSectionInitialized := TBX_TRUE\<rparr>))"
  by (simp add: exec.simps [of a t L75] exec_L77 split: sum.splits)

lemma exec_L72:
  "exec a t L72 s =
     (if criticalSectionInitialized s = TBX_FALSE
      then case pthread_mutex_init (mtxCritSect s) of
             Inl e \<Rightarrow> Inl e
           | Inr m \<Rightarrow> exec a t L81 (s\<lparr>mtxCritSect := m, criticalSectionInitialized := TBX_TRUE\<rparr>)
      else exec a t L81 s)"
  by (simp add: exec.simps [of a t L72] exec_L75)

lemma exec_L116:
  "exec a t L116 s = Inr (s\<lparr>interruptsDisabled := TBX_FALSE\<rparr>)"
  by (simp add: exec.simps [of a t L116] exec_Returned)

lemma exec_L115:
  "exec a t L115 s =
     (case pthread_mutex_unlock t (mtxCritSect s) of
        Inl e \<Rightarrow> Inl e
      | Inr m \<Rightarrow> Inr (s\<lparr>mtxCritSect := m, interruptsDisabled := TBX_FALSE\<rparr>))"
  by (simp add: exec.simps [of a t L115] exec_L116 split: sum.splits)

lemma exec_L113:
  "exec a t L113 s =
     (if interruptsDisabled s = TBX_TRUE
      then case pthread_mutex_unlock t (mtxCritSect s) of
             Inl e \<Rightarrow> Inl e
           | Inr m \<Rightarrow> Inr (s\<lparr>mtxCritSect := m, interruptsDisabled := TBX_FALSE\<rparr>)
      else Inr s)"
  by (simp add: exec.simps [of a t L113] exec_L115 exec_Returned)

lemma exec_L110:
  "exec a t L110 s =
     (if a \<and> criticalSectionInitialized s \<noteq> TBX_TRUE then Inl AssertionTriggered
      else exec a t L113 s)"
  by (simp add: exec.simps [of a t L110])

subsection \<open>The program points a run goes through\<close>

lemma points_Returned: "points a t Returned s = [(Returned, s)]"
  by (simp add: points.simps)

lemma points_L88: "points a t L88 s = [(L88, s), (Returned, s)]"
  by (simp add: points.simps [of a t L88] points_Returned)

lemma points_L84:
  "points a t L84 s =
     (L84, s) # (case pthread_mutex_lock t (mtxCritSect s) of
                   Inl e \<Rightarrow> []
                 | Inr m \<Rightarrow> [(L88, s\<lparr>mtxCritSect := m\<rparr>), (Returned, s\<lparr>mtxCritSect := m\<rparr>)])"
  by (simp add: points.simps [of a t L84] points_L88 split: sum.splits)

lemma points_L83:
  "points a t L83 s = (L83, s) # points a t L84 (s\<lparr>interruptsDisabled := TBX_TRUE\<rparr>)"
  by (simp add: points.simps [of a t L83])

lemma points_L81:
  "points a t L81 s =
     (L81, s) # (if interruptsDisabled s = TBX_FALSE then points a t L83 s
                 else points a t L88 s)"
  by (simp add: points.simps [of a t L81])

lemma points_L77:
  "points a t L77 s = (L77, s) # points a t L81 (s\<lparr>criticalSectionInitialized := TBX_TRUE\<rparr>)"
  by (simp add: points.simps [of a t L77])

lemma points_L75:
  "points a t L75 s =
     (L75, s) # (case pthread_mutex_init (mtxCritSect s) of
                   Inl e \<Rightarrow> []
                 | Inr m \<Rightarrow> points a t L77 (s\<lparr>mtxCritSect := m\<rparr>))"
  by (simp add: points.simps [of a t L75] split: sum.splits)

lemma points_L72:
  "points a t L72 s =
     (L72, s) # (if criticalSectionInitialized s = TBX_FALSE then points a t L75 s
                 else points a t L81 s)"
  by (simp add: points.simps [of a t L72])

lemma points_L116:
  "points a t L116 s = [(L116, s), (Returned, s\<lparr>interruptsDisabled := TBX_FALSE\<rparr>)]"
  by (simp add: points.simps [of a t L116] points_Returned)

lemma points_L115:
  "points a t L115 s =
     (L115, s) # (case pthread_mutex_unlock t (mtxCritSect s) of
                    Inl e \<Rightarrow> []
                  | Inr m \<Rightarrow> points a t L116 (s\<lparr>mtxCritSect := m\<rparr>))"
  by (simp add: points.simps [of a t L115] split: sum.splits)

lemma points_L113:
  "points a t L113 s =
     (L113, s) # (if interruptsDisabled s = TBX_TRUE then points a t L115 s
                  else [(Returned, s)])"
  by (simp add: points.simps [of a t L113] points_Returned)

lemma points_L110:
  "points a t L110 s =
     (L110, s) # (if a \<and> criticalSectionInitialized s \<noteq> TBX_TRUE then []
                  else points a t L113 s)"
  by (simp add: points.simps [of a t L110])

lemmas points_Disable = points_L72 points_L75 points_L77 points_L81 points_L83 points_L84 points_L88
lemmas points_Restore = points_L110 points_L113 points_L115 points_L116

subsection \<open>The two functions on the three states of the state machine\<close>

lemma TBX_TRUE_neq_FALSE: "TBX_TRUE \<noteq> TBX_FALSE" "TBX_FALSE \<noteq> TBX_TRUE"
  by (simp_all add: TBX_TRUE_def TBX_FALSE_def)

lemma Disable_initial:
  "TbxPortInterruptsDisable a t initial_state = Inr (0, locked_state t)"
  by (simp add: TbxPortInterruptsDisable_def exec_L72 exec_L81 initial_state_def
      locked_state_def pthread_mutex_init_def pthread_mutex_lock_def)

lemma Disable_unlocked:
  "TbxPortInterruptsDisable a t unlocked_state = Inr (0, locked_state t)"
  by (simp add: TbxPortInterruptsDisable_def exec_L72 exec_L81 unlocked_state_def
      locked_state_def pthread_mutex_lock_def TBX_TRUE_neq_FALSE)

lemma Disable_locked:
  "TbxPortInterruptsDisable a t (locked_state u) = Inr (0, locked_state u)"
  by (simp add: TbxPortInterruptsDisable_def exec_L72 exec_L81 locked_state_def
      TBX_TRUE_neq_FALSE)

lemma Restore_initial:
  "TbxPortInterruptsRestore a t k initial_state =
     (if a then Inl AssertionTriggered else Inr initial_state)"
  by (simp add: TbxPortInterruptsRestore_def exec_L110 exec_L113 initial_state_def
      TBX_TRUE_neq_FALSE)

lemma Restore_unlocked:
  "TbxPortInterruptsRestore a t k unlocked_state = Inr unlocked_state"
  by (simp add: TbxPortInterruptsRestore_def exec_L110 exec_L113 unlocked_state_def
      TBX_TRUE_neq_FALSE)

lemma Restore_locked:
  "TbxPortInterruptsRestore a t k (locked_state t) = Inr unlocked_state"
  by (simp add: TbxPortInterruptsRestore_def exec_L110 exec_L113 unlocked_state_def
      locked_state_def pthread_mutex_unlock_def)

subsection \<open>The states one thread can reach\<close>

lemma do_call_states:
  "s \<in> {initial_state, unlocked_state, locked_state t} \<Longrightarrow> do_call a t c s = Inr s' \<Longrightarrow>
   s' \<in> {initial_state, unlocked_state, locked_state t}"
  by (cases c)
    (auto simp: Disable_initial Disable_unlocked Disable_locked Restore_initial
      Restore_unlocked Restore_locked split: if_splits)

lemma run_calls_states:
  "run_calls a t cs s = Inr s' \<Longrightarrow> s \<in> {initial_state, unlocked_state, locked_state t} \<Longrightarrow>
   s' \<in> {initial_state, unlocked_state, locked_state t}"
proof (induction cs arbitrary: s)
  case Nil
  then show ?case by simp
next
  case (Cons c cs)
  from Cons.prems(1) obtain s1 where c: "do_call a t c s = Inr s1"
    and r: "run_calls a t cs s1 = Inr s'"
    by (auto split: sum.splits)
  from do_call_states [OF Cons.prems(2) c] have "s1 \<in> {initial_state, unlocked_state, locked_state t}" .
  with Cons.IH [OF r] show ?case .
qed

lemma reachable_states:
  "run_calls a t cs initial_state = Inr s \<Longrightarrow>
   s = initial_state \<or> s = unlocked_state \<or> s = locked_state t"
  using run_calls_states [of a t cs initial_state s] by simp

text \<open>
  As long as all calls are made by one thread, one whole call after the other, the flag
  is true exactly when that thread holds the mutex.
\<close>

lemma one_thread_held_iff_locked:
  "run_calls a t cs initial_state = Inr s \<Longrightarrow>
   (interruptsDisabled s = TBX_TRUE \<longleftrightarrow> mtxCritSect s = MtxLocked t)"
  by (drule reachable_states)
    (auto simp: initial_state_def unlocked_state_def locked_state_def TBX_TRUE_neq_FALSE)

subsection \<open>A thread that is never preempted\<close>

text \<open>
  Scheduled alone, a thread inside a call reaches the return of the call with the
  variables that \<open>exec\<close> computes.
\<close>

lemma solo_run:
  "point (thr m t) = p \<Longrightarrow> exec a t p (vars m) = Inr s' \<Longrightarrow>
   \<exists>n. interleave a (replicate n t) m =
         Inr (m\<lparr>vars := s', thr := (thr m)(t := (thr m t)\<lparr>point := Returned\<rparr>)\<rparr>)"
proof (induction a t p "vars m" arbitrary: m rule: exec.induct)
  case (1 a t p)
  show ?case
  proof (cases "p = Returned")
    case True
    with "1.prems" have "s' = vars m" by (simp add: exec.simps [of a t Returned])
    with True "1.prems"(1) have "interleave a (replicate 0 t) m =
        Inr (m\<lparr>vars := s', thr := (thr m)(t := (thr m t)\<lparr>point := Returned\<rparr>)\<rparr>)"
      by (simp add: fun_upd_idem)
    then show ?thesis by blast
  next
    case False
    from "1.prems"(2) False obtain q u where st: "step a t p (vars m) = Inr (q, u)"
      and ex: "exec a t q u = Inr s'"
      by (subst (asm) exec.simps) (auto split: sum.splits)
    define m1 where "m1 = m\<lparr>vars := u, thr := (thr m)(t := (thr m t)\<lparr>point := q\<rparr>)\<rparr>"
    from False st "1.prems"(1) have sc: "sched a t m = Inr m1"
      by (simp add: sched_def m1_def)
    have pq: "point (thr m1 t) = q" and v: "(q, vars m1) = (q, u)"
      by (simp_all add: m1_def)
    have "exec a t q (vars m1) = Inr s'" using ex by (simp add: m1_def)
    from "1.hyps" [OF False st v pq this]
    obtain n where "interleave a (replicate n t) m1 =
        Inr (m1\<lparr>vars := s', thr := (thr m1)(t := (thr m1 t)\<lparr>point := Returned\<rparr>)\<rparr>)"
      by auto
    with sc have "interleave a (replicate (Suc n) t) m =
        Inr (m\<lparr>vars := s', thr := (thr m)(t := (thr m t)\<lparr>point := Returned\<rparr>)\<rparr>)"
      by (simp add: m1_def)
    then show ?thesis by blast
  qed
qed

subsection \<open>The initialisation flag along a run\<close>

lemma points_unfold:
  "p \<noteq> Returned \<Longrightarrow>
   points a t p s =
     (p, s) # (case step a t p s of Inl e \<Rightarrow> [] | Inr (p', s') \<Rightarrow> points a t p' s')"
  by (subst points.simps) simp

lemma flag_stays_set:
  "(p', s') \<in> set (points a t p s) \<Longrightarrow> criticalSectionInitialized s = TBX_TRUE \<Longrightarrow>
   criticalSectionInitialized s' = TBX_TRUE"
proof (induction a t p s rule: points.induct)
  case (1 a t p s)
  show ?case
  proof (cases "p = Returned")
    case True
    with "1.prems" show ?thesis by (simp add: points.simps [of a t Returned])
  next
    case False
    show ?thesis
    proof (cases "(p', s') = (p, s)")
      case True
      with "1.prems" show ?thesis by simp
    next
      case ne: False
      from "1.prems"(1) ne
      have "(p', s') \<in> set (case step a t p s of Inl e \<Rightarrow> [] | Inr (q, u) \<Rightarrow> points a t q u)"
        unfolding points_unfold [OF False] by auto
      then obtain q u where st: "step a t p s = Inr (q, u)"
        and mem: "(p', s') \<in> set (points a t q u)"
        by (cases "step a t p s") auto
      from st "1.prems"(2) have "criticalSectionInitialized u = TBX_TRUE"
        by (cases p) (auto split: sum.splits if_splits)
      with "1.IH" [OF False st refl mem] show ?thesis .
    qed
  qed
qed

lemma run_calls_flag:
  "run_calls a t cs s = Inr s' \<Longrightarrow> criticalSectionInitialized s = TBX_TRUE \<Longrightarrow>
   criticalSectionInitialized s' = TBX_TRUE"
proof (induction cs arbitrary: s)
  case Nil
  then show ?case by simp
next
  case (Cons c cs)
  from Cons.prems(1) obtain u where c: "do_call a t c s = Inr u"
    and r: "run_calls a t cs u = Inr s'"
    by (auto split: sum.splits)
  from c Cons.prems(2) have "criticalSectionInitialized u = TBX_TRUE"
    by (cases c)
      (auto simp: TbxPortInterruptsDisable_def TbxPortInterruptsRestore_def exec_L72 exec_L81
        exec_L110 exec_L113 TBX_TRUE_neq_FALSE split: sum.splits if_splits)
  with Cons.IH [OF r] show ?case .
qed

section \<open>The claims of the specification\<close>

subsection \<open>Two threads\<close>

text \<open>
  C1 does not hold of the code, because \<open>interruptsDisabled\<close> is one variable for all
  threads. Threads 1 and 2 each make one guarded increment. After thread 1 has
  returned from \<open>TbxPortInterruptsDisable\<close>, the call of thread 2 finds the flag set and
  returns without locking: both threads are inside their protected regions, with the
  mutex locked by thread 1. When both then load the counter before either stores it,
  the two increments leave the counter at 1 instead of 2, and no call has failed.
\<close>

theorem C1_lost_update:
  "(case run True [1, 2] (start 1) of
      Inl e \<Rightarrow> False
    | Inr sys \<Rightarrow> in_region (threads sys 1) \<and> in_region (threads sys 2) \<and>
                 port sys = locked_state 1) \<and>
   (case run True [1, 2, 1, 2, 1, 2, 1, 2] (start 1) of
      Inl e \<Rightarrow> False
    | Inr sys \<Rightarrow> todo (threads sys 1) = [] \<and> todo (threads sys 2) = [] \<and>
                 port sys = unlocked_state \<and> counter sys = 1)"
  by (simp add: start_def worker_def act_def in_region_def Disable_initial Disable_locked
      Restore_locked Restore_unlocked)

subsection \<open>Nested calls of Disable\<close>

text \<open>
  C2. A call of \<open>TbxPortInterruptsDisable\<close> in a state where \<open>interruptsDisabled\<close> is
  already true never reaches the call of \<open>pthread_mutex_lock\<close> (line 84) and leaves
  \<open>interruptsDisabled\<close> true; where \<open>criticalSectionInitialized\<close> is true as well (as
  in every state a thread can reach with the flag set) it returns 0 and changes nothing
  at all, the mutex included. From every state one thread can reach, Disable, Disable, Restore, Restore
  returns each time and ends with both flags as in the Unlocked state and the mutex
  unlocked.
\<close>

theorem C2_nested_disable:
  "(interruptsDisabled s1 = TBX_TRUE \<longrightarrow>
      L84 \<notin> fst ` set (points a t L72 s1) \<and>
      (\<forall>r s'. TbxPortInterruptsDisable a t s1 = Inr (r, s') \<longrightarrow>
         interruptsDisabled s' = TBX_TRUE)) \<and>
   (interruptsDisabled s2 = TBX_TRUE \<and> criticalSectionInitialized s2 = TBX_TRUE \<longrightarrow>
      TbxPortInterruptsDisable a t s2 = Inr (0, s2)) \<and>
   (run_calls a t cs initial_state = Inr s3 \<longrightarrow>
      run_calls a t [Disable, Disable, Restore k1, Restore k2] s3 = Inr unlocked_state) \<and>
   (run_calls a t cs' initial_state = Inr s4 \<and> interruptsDisabled s4 = TBX_TRUE \<longrightarrow>
      criticalSectionInitialized s4 = TBX_TRUE)"
proof (intro conjI impI)
  assume "run_calls a t cs' initial_state = Inr s4 \<and> interruptsDisabled s4 = TBX_TRUE"
  then have "s4 = initial_state \<or> s4 = unlocked_state \<or> s4 = locked_state t"
    and "interruptsDisabled s4 = TBX_TRUE"
    by (auto dest: reachable_states)
  then show "criticalSectionInitialized s4 = TBX_TRUE"
    by (auto simp: initial_state_def unlocked_state_def locked_state_def TBX_TRUE_neq_FALSE)
next
  assume h: "interruptsDisabled s1 = TBX_TRUE"
  then show "L84 \<notin> fst ` set (points a t L72 s1)"
    by (auto simp: points_Disable TBX_TRUE_neq_FALSE split: sum.splits)
  from h show "\<forall>r s'. TbxPortInterruptsDisable a t s1 = Inr (r, s') \<longrightarrow>
         interruptsDisabled s' = TBX_TRUE"
    by (auto simp: TbxPortInterruptsDisable_def exec_L72 exec_L81 TBX_TRUE_neq_FALSE
        split: sum.splits)
next
  assume "interruptsDisabled s2 = TBX_TRUE \<and> criticalSectionInitialized s2 = TBX_TRUE"
  then show "TbxPortInterruptsDisable a t s2 = Inr (0, s2)"
    by (simp add: TbxPortInterruptsDisable_def exec_L72 exec_L81 TBX_TRUE_neq_FALSE)
next
  assume "run_calls a t cs initial_state = Inr s3"
  then have "s3 = initial_state \<or> s3 = unlocked_state \<or> s3 = locked_state t"
    by (rule reachable_states)
  then show "run_calls a t [Disable, Disable, Restore k1, Restore k2] s3 = Inr unlocked_state"
    by (auto simp: Disable_initial Disable_unlocked Disable_locked Restore_locked Restore_unlocked)
qed

theorem C2_nested_disable_witness:
  "interruptsDisabled (locked_state 1) = TBX_TRUE \<and>
   criticalSectionInitialized (locked_state 1) = TBX_TRUE \<and>
   run_calls True 1 [Disable] initial_state = Inr (locked_state 1) \<and>
   L84 \<notin> fst ` set (points True 1 L72 (locked_state 1)) \<and>
   TbxPortInterruptsDisable True 1 (locked_state 1) = Inr (0, locked_state 1) \<and>
   run_calls True 1 [Disable, Disable, Restore 0, Restore 0] (locked_state 1) = Inr unlocked_state"
proof -
  have h1: "interruptsDisabled (locked_state 1) = TBX_TRUE"
    and h2: "criticalSectionInitialized (locked_state 1) = TBX_TRUE"
    by (simp_all add: locked_state_def)
  have h3: "run_calls True 1 [Disable] initial_state = Inr (locked_state 1)"
    by (simp add: Disable_initial)
  from C2_nested_disable [of "locked_state 1" True 1 "locked_state 1" "[Disable]" "locked_state 1" 0 0
      "[Disable]" "locked_state 1"]
    h1 h2 h3
  show ?thesis by blast
qed

subsection \<open>A Restore with nothing to restore\<close>

text \<open>
  C3. In every state where \<open>criticalSectionInitialized\<close> is true and
  \<open>interruptsDisabled\<close> is false, \<open>TbxPortInterruptsRestore\<close> returns with the state
  unchanged, and its run goes from the assertion to the test to the return, without
  reaching the call of \<open>pthread_mutex_unlock\<close>. After such a call in the Unlocked state,
  a Disable locks and the Restore after it unlocks again.
\<close>

theorem C3_redundant_restore:
  "(criticalSectionInitialized s = TBX_TRUE \<and> interruptsDisabled s = TBX_FALSE \<longrightarrow>
      TbxPortInterruptsRestore a t k s = Inr s \<and>
      points a t L110 s = [(L110, s), (L113, s), (Returned, s)]) \<and>
   run_calls a t [Restore k, Disable] unlocked_state = Inr (locked_state t) \<and>
   run_calls a t [Restore k, Disable, Restore k'] unlocked_state = Inr unlocked_state"
proof (intro conjI impI)
  assume h: "criticalSectionInitialized s = TBX_TRUE \<and> interruptsDisabled s = TBX_FALSE"
  then show "TbxPortInterruptsRestore a t k s = Inr s"
    by (simp add: TbxPortInterruptsRestore_def exec_L110 exec_L113 TBX_TRUE_neq_FALSE)
  from h show "points a t L110 s = [(L110, s), (L113, s), (Returned, s)]"
    by (simp add: points_L110 points_L113 TBX_TRUE_neq_FALSE)
next
  show "run_calls a t [Restore k, Disable] unlocked_state = Inr (locked_state t)"
    by (simp add: Restore_unlocked Disable_unlocked)
  show "run_calls a t [Restore k, Disable, Restore k'] unlocked_state = Inr unlocked_state"
    by (simp add: Restore_unlocked Disable_unlocked Restore_locked)
qed

theorem C3_redundant_restore_witness:
  "criticalSectionInitialized unlocked_state = TBX_TRUE \<and>
   interruptsDisabled unlocked_state = TBX_FALSE \<and>
   TbxPortInterruptsRestore True 1 0 unlocked_state = Inr unlocked_state \<and>
   points True 1 L110 unlocked_state =
     [(L110, unlocked_state), (L113, unlocked_state), (Returned, unlocked_state)]"
proof -
  have h: "criticalSectionInitialized unlocked_state = TBX_TRUE \<and>
      interruptsDisabled unlocked_state = TBX_FALSE"
    by (simp add: unlocked_state_def)
  with C3_redundant_restore [of unlocked_state True 1 0] show ?thesis by blast
qed

subsection \<open>Restore before any Disable\<close>

text \<open>
  C4, as stated, fails: with assertions compiled in, \<open>TbxPortInterruptsRestore\<close> in the
  initial state stops at \<open>TBX_ASSERT(criticalSectionInitialized == TBX_TRUE)\<close>.
\<close>

theorem C4_counterexample:
  "TbxPortInterruptsRestore True 1 0 initial_state = Inl AssertionTriggered"
  by (simp add: Restore_initial)

text \<open>
  C4, amended. In a state where \<open>criticalSectionInitialized\<close> is not true,
  \<open>TbxPortInterruptsRestore\<close> with assertions compiled in triggers the assertion of
  line 110, whatever the token, before any variable is touched; with assertions compiled
  out, and \<open>interruptsDisabled\<close> not true, it returns and changes nothing.
\<close>

theorem C4_restore_uninitialized:
  "criticalSectionInitialized s \<noteq> TBX_TRUE \<Longrightarrow>
   TbxPortInterruptsRestore True t k s = Inl AssertionTriggered \<and>
   points True t L110 s = [(L110, s)] \<and>
   (interruptsDisabled s \<noteq> TBX_TRUE \<longrightarrow> TbxPortInterruptsRestore False t k s = Inr s)"
  by (simp add: TbxPortInterruptsRestore_def exec_L110 exec_L113 points_L110)

theorem C4_restore_uninitialized_witness:
  "criticalSectionInitialized initial_state \<noteq> TBX_TRUE \<and>
   interruptsDisabled initial_state \<noteq> TBX_TRUE \<and>
   TbxPortInterruptsRestore True 1 0 initial_state = Inl AssertionTriggered \<and>
   points True 1 L110 initial_state = [(L110, initial_state)] \<and>
   TbxPortInterruptsRestore False 1 0 initial_state = Inr initial_state"
proof -
  have h: "criticalSectionInitialized initial_state \<noteq> TBX_TRUE"
    and h': "interruptsDisabled initial_state \<noteq> TBX_TRUE"
    by (simp_all add: initial_state_def TBX_TRUE_neq_FALSE)
  from C4_restore_uninitialized [OF h, of 1 0] h h' show ?thesis by blast
qed

subsection \<open>The flag and the mutex\<close>

text \<open>
  C5 does not hold of the code when two threads use the critical section, because
  \<open>interruptsDisabled\<close> is written while the mutex is not held (line 83 before the
  lock, line 116 after the unlock). First run: both threads pass the test of line 81
  while the flag is false; thread 1 sets the flag, locks and returns; thread 2 sets the
  flag and waits; thread 1 calls Restore, which unlocks and clears the flag; thread 2
  gets the mutex and returns. Every call has returned, the flag is false and the mutex
  is locked by thread 2. Second run: thread 1 has set the flag and stands before the
  lock of line 84; the call of thread 2 finds the flag set and returns, with the flag
  true and the mutex unlocked.
\<close>

theorem C5_flag_false_lock_held:
  "(case interleave True [1, 1, 1, 1, 1, 2, 2, 2, 1, 1, 1, 2, 1, 1, 1, 1, 1, 2, 2]
           (boot two_callers) of
      Inl e \<Rightarrow> False
    | Inr m \<Rightarrow>
        vars m = \<lparr>criticalSectionInitialized = TBX_TRUE, interruptsDisabled = TBX_FALSE,
                  mtxCritSect = MtxLocked 2\<rparr> \<and>
        thr m 1 = \<lparr>point = Returned, pending = []\<rparr> \<and>
        thr m 2 = \<lparr>point = Returned, pending = []\<rparr>) \<and>
   (case interleave True [1, 1, 1, 1, 1, 1, 2, 2, 2, 2] (boot two_callers) of
      Inl e \<Rightarrow> False
    | Inr m \<Rightarrow>
        vars m = \<lparr>criticalSectionInitialized = TBX_TRUE, interruptsDisabled = TBX_TRUE,
                  mtxCritSect = MtxUnlocked\<rparr> \<and>
        point (thr m 1) = L84 \<and>
        thr m 2 = \<lparr>point = Returned, pending = []\<rparr>)"
  by (simp add: boot_def two_callers_def sched_def initial_state_def TBX_TRUE_neq_FALSE
      pthread_mutex_init_def pthread_mutex_lock_def pthread_mutex_unlock_def)

subsection \<open>The initialisation flag\<close>

text \<open>
  C6. A call of \<open>TbxPortInterruptsDisable\<close> that finds \<open>criticalSectionInitialized\<close>
  false returns with it true. Once it is true, no run of either function reaches the
  call of \<open>pthread_mutex_init\<close> (line 75) or the assignment of line 77, the flag is
  true at every program point of the run, and it is true after every sequence of calls.
\<close>

theorem C6_initialized_monotone:
  "(criticalSectionInitialized s1 = TBX_FALSE \<and> TbxPortInterruptsDisable a t s1 = Inr (r, s1') \<longrightarrow>
      criticalSectionInitialized s1' = TBX_TRUE) \<and>
   (criticalSectionInitialized s2 = TBX_TRUE \<longrightarrow>
      (\<forall>(p, s') \<in> set (points a t L72 s2) \<union> set (points a t L110 s2).
         p \<noteq> L75 \<and> p \<noteq> L77 \<and> criticalSectionInitialized s' = TBX_TRUE)) \<and>
   (criticalSectionInitialized s3 = TBX_TRUE \<and> run_calls a t cs s3 = Inr s3' \<longrightarrow>
      criticalSectionInitialized s3' = TBX_TRUE)"
proof (intro conjI impI)
  assume "criticalSectionInitialized s1 = TBX_FALSE \<and> TbxPortInterruptsDisable a t s1 = Inr (r, s1')"
  then show "criticalSectionInitialized s1' = TBX_TRUE"
    by (auto simp: TbxPortInterruptsDisable_def exec_L72 exec_L81 split: sum.splits if_splits)
next
  assume h: "criticalSectionInitialized s2 = TBX_TRUE"
  have "p \<noteq> L75 \<and> p \<noteq> L77"
    if "(p, s') \<in> set (points a t L72 s2) \<union> set (points a t L110 s2)" for p s'
    using that h
    by (auto simp: points_Disable points_Restore TBX_TRUE_neq_FALSE split: sum.splits if_splits)
  with h show "\<forall>(p, s') \<in> set (points a t L72 s2) \<union> set (points a t L110 s2).
         p \<noteq> L75 \<and> p \<noteq> L77 \<and> criticalSectionInitialized s' = TBX_TRUE"
    by (auto dest: flag_stays_set)
next
  assume "criticalSectionInitialized s3 = TBX_TRUE \<and> run_calls a t cs s3 = Inr s3'"
  then show "criticalSectionInitialized s3' = TBX_TRUE"
    by (auto dest: run_calls_flag)
qed

theorem C6_initialized_monotone_witness:
  "criticalSectionInitialized initial_state = TBX_FALSE \<and>
   TbxPortInterruptsDisable True 1 initial_state = Inr (0, locked_state 1) \<and>
   criticalSectionInitialized (locked_state 1) = TBX_TRUE \<and>
   run_calls True 1 [Restore 0, Disable, Restore 0] (locked_state 1) = Inr unlocked_state \<and>
   criticalSectionInitialized unlocked_state = TBX_TRUE \<and>
   (Returned, unlocked_state) \<in> set (points True 1 L110 (locked_state 1))"
proof -
  have h1: "criticalSectionInitialized initial_state = TBX_FALSE"
    by (simp add: initial_state_def)
  have h2: "TbxPortInterruptsDisable True 1 initial_state = Inr (0, locked_state 1)"
    by (rule Disable_initial)
  have h3: "criticalSectionInitialized (locked_state 1) = TBX_TRUE"
    by (simp add: locked_state_def)
  have h4: "run_calls True 1 [Restore 0, Disable, Restore 0] (locked_state 1) = Inr unlocked_state"
    by (simp add: Restore_locked Disable_unlocked)
  have h5: "(Returned, unlocked_state) \<in> set (points True 1 L110 (locked_state 1))"
    by (simp add: points_Restore locked_state_def unlocked_state_def pthread_mutex_unlock_def)
  from C6_initialized_monotone [of initial_state True 1 0 "locked_state 1" "locked_state 1"
      "locked_state 1" "[Restore 0, Disable, Restore 0]" unlocked_state] h1 h2 h3 h4 h5
  show ?thesis by blast
qed

subsection \<open>The order of the two statements of lines 83 and 84\<close>

text \<open>
  C7, as stated, fails: in the first call of \<open>TbxPortInterruptsDisable\<close> the run reaches
  the call of \<open>pthread_mutex_lock\<close> (line 84) with \<open>interruptsDisabled\<close> already true
  and the mutex still unlocked.
\<close>

theorem C7_counterexample:
  "(L84, \<lparr>criticalSectionInitialized = TBX_TRUE, interruptsDisabled = TBX_TRUE,
          mtxCritSect = MtxUnlocked\<rparr>) \<in> set (points True 1 L72 initial_state)"
  by (simp add: points_Disable initial_state_def pthread_mutex_init_def)

text \<open>
  C7, amended. When \<open>interruptsDisabled\<close> is false, \<open>TbxPortInterruptsDisable\<close> first
  sets it to true (line 83) and then locks the mutex (line 84): in every call that
  returns, the run reaches line 84 with the variables as they are on return except
  that the mutex is still unlocked, and on return the flag is true and the mutex is
  locked by the caller.
\<close>

theorem C7_flag_before_lock:
  "interruptsDisabled s = TBX_FALSE \<Longrightarrow> TbxPortInterruptsDisable a t s = Inr (r, s') \<Longrightarrow>
   (L84, s'\<lparr>mtxCritSect := MtxUnlocked\<rparr>) \<in> set (points a t L72 s) \<and>
   interruptsDisabled s' = TBX_TRUE \<and> mtxCritSect s' = MtxLocked t"
  by (auto simp: TbxPortInterruptsDisable_def exec_L72 exec_L81 points_Disable
      pthread_mutex_init_def pthread_mutex_lock_def
      split: sum.splits if_splits pthread_mutex_t.splits)

theorem C7_flag_before_lock_witness:
  "interruptsDisabled unlocked_state = TBX_FALSE \<and>
   TbxPortInterruptsDisable True 1 unlocked_state = Inr (0, locked_state 1) \<and>
   (L84, (locked_state 1)\<lparr>mtxCritSect := MtxUnlocked\<rparr>) \<in> set (points True 1 L72 unlocked_state) \<and>
   interruptsDisabled (locked_state 1) = TBX_TRUE \<and>
   mtxCritSect (locked_state 1) = MtxLocked 1"
proof -
  have h1: "interruptsDisabled unlocked_state = TBX_FALSE"
    by (simp add: unlocked_state_def)
  have h2: "TbxPortInterruptsDisable True 1 unlocked_state = Inr (0, locked_state 1)"
    by (rule Disable_unlocked)
  from C7_flag_before_lock [OF h1 h2] h1 h2 show ?thesis by blast
qed

subsection \<open>The token\<close>

text \<open>
  C8. \<open>TbxPortInterruptsRestore\<close> does the same for any two values of its argument, in
  every state: the same outcome and the same resulting variables.
\<close>

theorem C8_token_ignored:
  "TbxPortInterruptsRestore a t k1 s = TbxPortInterruptsRestore a t k2 s"
  by (simp add: TbxPortInterruptsRestore_def)

subsection \<open>Disable followed by Restore\<close>



subsection \<open>What Disable returns\<close>

text \<open>
  C10. Whenever \<open>TbxPortInterruptsDisable\<close> returns, it returns 0; when the two flags
  hold boolean values beforehand, both are true afterwards; and from every state one
  thread can reach from the initial state the call does return, with 0 and in the
  Locked state.
\<close>

theorem C10_disable_result:
  "(TbxPortInterruptsDisable a t s1 = Inr (r, s1') \<longrightarrow> r = 0) \<and>
   (criticalSectionInitialized s2 \<in> {TBX_FALSE, TBX_TRUE} \<and>
    interruptsDisabled s2 \<in> {TBX_FALSE, TBX_TRUE} \<and>
    TbxPortInterruptsDisable a t s2 = Inr (r2, s2') \<longrightarrow>
      criticalSectionInitialized s2' = TBX_TRUE \<and> interruptsDisabled s2' = TBX_TRUE) \<and>
   (run_calls a t cs initial_state = Inr s3 \<longrightarrow>
      TbxPortInterruptsDisable a t s3 = Inr (0, locked_state t))"
proof (intro conjI impI)
  assume "TbxPortInterruptsDisable a t s1 = Inr (r, s1')"
  then show "r = 0"
    by (auto simp: TbxPortInterruptsDisable_def split: sum.splits)
next
  assume h: "criticalSectionInitialized s2 \<in> {TBX_FALSE, TBX_TRUE} \<and>
    interruptsDisabled s2 \<in> {TBX_FALSE, TBX_TRUE} \<and>
    TbxPortInterruptsDisable a t s2 = Inr (r2, s2')"
  then show "criticalSectionInitialized s2' = TBX_TRUE"
    by (auto simp: TbxPortInterruptsDisable_def exec_L72 exec_L81 TBX_TRUE_neq_FALSE
        split: sum.splits if_splits)
  from h show "interruptsDisabled s2' = TBX_TRUE"
    by (auto simp: TbxPortInterruptsDisable_def exec_L72 exec_L81 TBX_TRUE_neq_FALSE
        split: sum.splits if_splits)
next
  assume "run_calls a t cs initial_state = Inr s3"
  then have "s3 = initial_state \<or> s3 = unlocked_state \<or> s3 = locked_state t"
    by (rule reachable_states)
  then show "TbxPortInterruptsDisable a t s3 = Inr (0, locked_state t)"
    by (auto simp: Disable_initial Disable_unlocked Disable_locked)
qed

theorem C10_disable_result_witness:
  "run_calls True 1 [Disable] initial_state = Inr (locked_state 1) \<and>
   TbxPortInterruptsDisable True 1 (locked_state 1) = Inr (0, locked_state 1) \<and>
   criticalSectionInitialized (locked_state 1) \<in> {TBX_FALSE, TBX_TRUE} \<and>
   interruptsDisabled (locked_state 1) \<in> {TBX_FALSE, TBX_TRUE} \<and>
   criticalSectionInitialized (locked_state 1) = TBX_TRUE \<and>
   interruptsDisabled (locked_state 1) = TBX_TRUE"
proof -
  have h1: "run_calls True 1 [Disable] initial_state = Inr (locked_state 1)"
    by (simp add: Disable_initial)
  have h2: "criticalSectionInitialized (locked_state 1) \<in> {TBX_FALSE, TBX_TRUE}"
    and h3: "interruptsDisabled (locked_state 1) \<in> {TBX_FALSE, TBX_TRUE}"
    by (simp_all add: locked_state_def)
  from C10_disable_result [of True 1 "locked_state 1" 0 "locked_state 1" "locked_state 1" 0
      "locked_state 1" "[Disable]" "locked_state 1"] h1 h2 h3
  show ?thesis by blast
qed

end
